theory Spec2Isabelle
  imports Main "HOL-Library.AList" "HOL-Library.Multiset"
begin

section \<open>Data model of scheduler.js\<close>

text \<open>
  A slot is the string key \<^verbatim>\<open>`${day}.${period}`\<close> of the schedule object; preferred
  slots and unavailability entries are raw tokens of the same type.
\<close>

type_synonym slot = string

text \<open>
  \<^verbatim>\<open>class Course\<close>: the constructor stores its arguments, turns the section array into
  a \<^verbatim>\<open>Set\<close> and starts \<^verbatim>\<open>conflicts\<close> at 0. The numeric fields are JavaScript
  numbers; \<^verbatim>\<open>id\<close>, \<^verbatim>\<open>lectures\<close> and \<^verbatim>\<open>priority\<close> only ever hold integers here
  (\<^verbatim>\<open>index\<close>, \<^verbatim>\<open>parseInt(..) || 1\<close>, 1 or 2). \<^verbatim>\<open>conflicts\<close> is an integer or, after
  \<^verbatim>\<open>+= undefined\<close>, \<^verbatim>\<open>NaN\<close>, which is \<open>None\<close>.
\<close>

record course =
  id_c :: int
  name :: string
  teacher :: string
  section_c :: "string set"
  lectures :: int
  priority :: int
  prefs :: "slot list"
  conflicts :: "int option"

definition Course :: "int \<Rightarrow> string \<Rightarrow> string \<Rightarrow> string list \<Rightarrow> int \<Rightarrow> int \<Rightarrow> slot list \<Rightarrow> course" where
  "Course i n t s l p pr =
     \<lparr>id_c = i, name = n, teacher = t, section_c = set s, lectures = l, priority = p,
      prefs = pr, conflicts = Some 0\<rparr>"

subsection \<open>The pairwise conflict predicate\<close>

text \<open>
  \<^verbatim>\<open>course1.teacher === course2.teacher ||
     [...course1.section].some(section => course2.section.has(section))\<close>
\<close>

definition conflict :: "course \<Rightarrow> course \<Rightarrow> bool" where
  "conflict course1 course2 \<longleftrightarrow>
     teacher course1 = teacher course2 \<or>
     (\<exists>section \<in> section_c course1. section \<in> section_c course2)"

section \<open>Built-in operations the scheduler relies on\<close>

subsection \<open>Numbers as strings, strings as numbers\<close>

text \<open>
  The template literal \<^verbatim>\<open>`${day}.${period}`\<close> prints both integers in decimal, with a
  leading minus sign below zero.
\<close>

definition digit_char :: "nat \<Rightarrow> char" where
  "digit_char n = ''0123456789'' ! n"

fun show_nat :: "nat \<Rightarrow> string" where
  "show_nat n = (if n < 10 then [digit_char n] else show_nat (n div 10) @ [digit_char (n mod 10)])"

declare show_nat.simps [simp del]

definition show_int :: "int \<Rightarrow> string" where
  "show_int i = (if i < 0 then CHR ''-'' # show_nat (nat (- i)) else show_nat (nat i))"

definition slot_key :: "int \<Rightarrow> int \<Rightarrow> slot" where
  "slot_key day period = show_int day @ ''.'' @ show_int period"

text \<open>
  \<^verbatim>\<open>str.split('.')\<close>: the pieces between the separators, at least one piece.
\<close>

fun split_from :: "char \<Rightarrow> string \<Rightarrow> string \<Rightarrow> string list" where
  "split_from sep piece [] = [piece]"
| "split_from sep piece (c # cs) =
     (if c = sep then piece # split_from sep [] cs else split_from sep (piece @ [c]) cs)"

definition js_split :: "char \<Rightarrow> string \<Rightarrow> string list" where
  "js_split sep s = split_from sep [] s"

text \<open>
  \<^verbatim>\<open>parseInt(str)\<close> with no radix: leading white space is skipped, then an optional
  sign, then an optional \<^verbatim>\<open>0x\<close> prefix that selects base 16, then the longest run of
  digits of the base. No digit at all gives \<^verbatim>\<open>NaN\<close>, which is \<open>None\<close> here, as is the
  result for \<^verbatim>\<open>undefined\<close>.
\<close>

definition is_space :: "char \<Rightarrow> bool" where
  "is_space c \<longleftrightarrow> c \<in> set [CHR '' '', CHR 0x09, CHR 0x0A, CHR 0x0B, CHR 0x0C, CHR 0x0D]"

definition digit_value :: "char \<Rightarrow> nat option" where
  "digit_value c =
     (let n = (of_char c :: nat) in
      if 48 \<le> n \<and> n \<le> 57 then Some (n - 48)
      else if 97 \<le> n \<and> n \<le> 122 then Some (n - 87)
      else if 65 \<le> n \<and> n \<le> 90 then Some (n - 55)
      else None)"

definition is_digit :: "nat \<Rightarrow> char \<Rightarrow> bool" where
  "is_digit radix c = (case digit_value c of None \<Rightarrow> False | Some v \<Rightarrow> v < radix)"

definition digits_value :: "nat \<Rightarrow> string \<Rightarrow> nat" where
  "digits_value radix ds = foldl (\<lambda>acc c. acc * radix + the (digit_value c)) 0 ds"

definition parse_digits :: "nat \<Rightarrow> string \<Rightarrow> nat option" where
  "parse_digits radix s =
     (case takeWhile (is_digit radix) s of
        [] \<Rightarrow> None
      | d # ds \<Rightarrow> Some (digits_value radix (d # ds)))"

definition parse_unsigned :: "string \<Rightarrow> nat option" where
  "parse_unsigned s =
     (if take 2 s = ''0x'' \<or> take 2 s = ''0X'' then parse_digits 16 (drop 2 s)
      else parse_digits 10 s)"

definition parseInt :: "string option \<Rightarrow> int option" where
  "parseInt arg =
     (case arg of
        None \<Rightarrow> None
      | Some str \<Rightarrow>
          (case dropWhile is_space str of
             [] \<Rightarrow> None
           | c # cs \<Rightarrow>
               if c = CHR ''-'' then map_option (\<lambda>n. - int n) (parse_unsigned cs)
               else if c = CHR ''+'' then map_option int (parse_unsigned cs)
               else map_option int (parse_unsigned (c # cs))))"

text \<open>\<^verbatim>\<open>arr[i]\<close>: \<^verbatim>\<open>undefined\<close> past the end.\<close>

definition js_index :: "'a list \<Rightarrow> nat \<Rightarrow> 'a option" where
  "js_index xs i = (if i < length xs then Some (xs ! i) else None)"

text \<open>\<^verbatim>\<open>Math.max\<close> of two numbers: \<^verbatim>\<open>NaN\<close> as soon as one of them is.\<close>

definition js_max :: "int option \<Rightarrow> int option \<Rightarrow> int option" where
  "js_max a b = (case (a, b) of (Some x, Some y) \<Rightarrow> Some (max x y) | _ \<Rightarrow> None)"

subsection \<open>Sorting with a comparator\<close>

text \<open>
  \<^verbatim>\<open>Array.prototype.sort\<close> is stable, and with a consistent comparator the outcome is
  the one arrangement that is sorted and keeps equal elements in their input order.
  Inserting from the right, each element in front of its equals, computes it. Where the
  comparator is not consistent the language leaves the order to the engine.
\<close>

fun insert_sorted :: "('a \<Rightarrow> 'a \<Rightarrow> int) \<Rightarrow> 'a \<Rightarrow> 'a list \<Rightarrow> 'a list" where
  "insert_sorted cmp x [] = [x]"
| "insert_sorted cmp x (y # ys) =
     (if cmp x y \<le> 0 then x # y # ys else y # insert_sorted cmp x ys)"

definition js_sort :: "('a \<Rightarrow> 'a \<Rightarrow> int) \<Rightarrow> 'a list \<Rightarrow> 'a list" where
  "js_sort cmp xs = foldr (insert_sorted cmp) xs []"

section \<open>The scheduler\<close>

text \<open>
  The schedule is a plain object with string keys: an association list in the order the
  keys were created, which is the order \<^verbatim>\<open>for (let slot in schedule)\<close> visits them (every
  key has a dot in it, so none is an array index, which would come first).
  \<^verbatim>\<open>schedule[k] = v\<close> is \<^const>\<open>AList.update\<close>: it overwrites in place or appends a
  new key (the keys written are those of the grid, none of which is \<^verbatim>\<open>__proto__\<close>).

  \<^verbatim>\<open>days\<close> is an integer, as \<^verbatim>\<open>parseInt\<close> gives it from a numeric form field; \<^verbatim>\<open>NaN\<close>
  as a day count is not part of the model.

  \<^verbatim>\<open>rooms\<close> is \<^verbatim>\<open>null\<close> or a number; \<^verbatim>\<open>unavail\<close> is \<^verbatim>\<open>null\<close> or a plain object
  whose own properties map teacher names to arrays of slot tokens.
\<close>

type_synonym schedule = "(slot \<times> course list) list"
type_synonym unavail = "(string \<rightharpoonup> slot list) option"

text \<open>
  Reading \<^verbatim>\<open>obj[name]\<close> from a plain object gives the own property of that name, an
  array here, and otherwise what \<^verbatim>\<open>Object.prototype\<close> has under the name: one of its
  eleven functions, the prototype object itself for \<^verbatim>\<open>__proto__\<close>, or \<^verbatim>\<open>undefined\<close>. Of
  a function only its \<^verbatim>\<open>length\<close> matters: it is truthy, not iterable and has no
  \<^verbatim>\<open>includes\<close>. The prototype object is truthy, not iterable and has neither
  \<^verbatim>\<open>length\<close> nor \<^verbatim>\<open>includes\<close>.
\<close>

datatype 'a jsval = Undefined | Array 'a | Function nat | Prototype

definition inherited :: "string \<Rightarrow> 'a jsval" where
  "inherited key =
     (if key \<in> set [''constructor'', ''hasOwnProperty'', ''isPrototypeOf'',
                      ''propertyIsEnumerable'', ''__lookupGetter__'', ''__lookupSetter__'']
      then Function 1
      else if key \<in> set [''toString'', ''toLocaleString'', ''valueOf''] then Function 0
      else if key \<in> set [''__defineGetter__'', ''__defineSetter__''] then Function 2
      else if key = ''__proto__'' then Prototype
      else Undefined)"

definition js_get :: "(string \<rightharpoonup> 'a) \<Rightarrow> string \<Rightarrow> 'a jsval" where
  "js_get obj key = (case obj key of Some v \<Rightarrow> Array v | None \<Rightarrow> inherited key)"

text \<open>
  Everything thrown in the \<^verbatim>\<open>try\<close> block is a \<^verbatim>\<open>TypeError\<close>; it carries its message,
  whose wording is the JavaScript engine's (here V8's).
\<close>

datatype exn = TypeError string

fun message :: "exn \<Rightarrow> string" where
  "message (TypeError m) = m"

subsection \<open>Initialising the schedule\<close>

text \<open>
  \<^verbatim>\<open>Math.floor(1000 / days)\<close> is \<^verbatim>\<open>Infinity\<close> for \<^verbatim>\<open>days = 0\<close>, and then
  \<^verbatim>\<open>period <= Infinity\<close> never fails.
\<close>

datatype bound = Finite int | Infinity

fun le_bound :: "int \<Rightarrow> bound \<Rightarrow> bool" where
  "le_bound i (Finite n) = (i \<le> n)"
| "le_bound i Infinity = True"

definition period_bound :: "int \<Rightarrow> bound" where
  "period_bound days = (if days = 0 then Infinity else Finite (1000 div days))"

text \<open>\<^verbatim>\<open>for (let day = ..; day <= days; day++) schedule[`${day}.${period}`] = []\<close>\<close>

function init_days :: "int \<Rightarrow> int \<Rightarrow> int \<Rightarrow> schedule \<Rightarrow> schedule" where
  "init_days days period day schedule =
     (if day \<le> days
      then init_days days period (day + 1) (AList.update (slot_key day period) [] schedule)
      else schedule)"
  by pat_completeness auto
termination
  by (relation "measure (\<lambda>(days, period, day, schedule). nat (days + 1 - day))") auto

declare init_days.simps [simp del]

text \<open>\<^verbatim>\<open>for (let period = ..; period <= Math.floor(1000 / days); period++)\<close>\<close>

partial_function (option) init_periods :: "int \<Rightarrow> int \<Rightarrow> schedule \<Rightarrow> schedule option" where
  "init_periods days period schedule =
     (if le_bound period (period_bound days)
      then init_periods days (period + 1) (init_days days period 1 schedule)
      else Some schedule)"

declare init_periods.simps [code]

definition init_schedule :: "int \<Rightarrow> schedule option" where
  "init_schedule days = init_periods days 1 []"

subsection \<open>Scoring and ordering\<close>

text \<open>
  \<^verbatim>\<open>courses.reduce((sum, other) => other !== course && conflict(course, other)
     ? sum + w : sum, 0)\<close>. The elements of the array are distinct objects (one
  \<^verbatim>\<open>new Course\<close> per input row), so \<^verbatim>\<open>other !== course\<close> compares positions.
\<close>

definition count_conflicts :: "course list \<Rightarrow> nat \<Rightarrow> int \<Rightarrow> int" where
  "count_conflicts courses i w =
     foldl (\<lambda>sum j. if j \<noteq> i \<and> conflict (courses ! i) (courses ! j) then sum + w else sum)
       0 [0..<length courses]"

text \<open>
  \<^verbatim>\<open>(unavail[course.teacher] || []).length\<close>: every value but \<^verbatim>\<open>undefined\<close> is truthy,
  and the \<^verbatim>\<open>length\<close> of the prototype object is \<^verbatim>\<open>undefined\<close>.
\<close>

definition unavail_count :: "(string \<rightharpoonup> slot list) \<Rightarrow> course \<Rightarrow> int option" where
  "unavail_count u course =
     (case js_get u (teacher course) of
        Undefined \<Rightarrow> Some 0
      | Array ss \<Rightarrow> Some (int (length ss))
      | Function n \<Rightarrow> Some (int n)
      | Prototype \<Rightarrow> None)"

definition calculateConflicts :: "course list \<Rightarrow> unavail \<Rightarrow> course list" where
  "calculateConflicts courses unavail =
     (case unavail of
        Some u \<Rightarrow>
          foldl (\<lambda>cs i. cs[i := (cs ! i)\<lparr>conflicts :=
                   map_option (\<lambda>n. count_conflicts cs i 2 + n) (unavail_count u (cs ! i))\<rparr>])
            courses [0..<length courses]
      | None \<Rightarrow>
          foldl (\<lambda>cs i. cs[i := (cs ! i)\<lparr>conflicts := Some (count_conflicts cs i 1)\<rparr>])
            courses [0..<length courses])"

text \<open>
  \<^verbatim>\<open>(a, b) => a.priority - b.priority || b.conflicts - a.conflicts || a.id - b.id\<close>:
  \<^verbatim>\<open>||\<close> passes on to its right operand when the left one is 0 or \<^verbatim>\<open>NaN\<close>, and a
  difference is \<^verbatim>\<open>NaN\<close> as soon as one side is.
\<close>

definition js_minus :: "int option \<Rightarrow> int option \<Rightarrow> int option" where
  "js_minus a b = (case (a, b) of (Some x, Some y) \<Rightarrow> Some (x - y) | _ \<Rightarrow> None)"

definition compare_courses :: "course \<Rightarrow> course \<Rightarrow> int" where
  "compare_courses a b =
     (if priority a - priority b \<noteq> 0 then priority a - priority b
      else
        (case js_minus (conflicts b) (conflicts a) of
           Some d \<Rightarrow> if d \<noteq> 0 then d else id_c a - id_c b
         | None \<Rightarrow> id_c a - id_c b))"

subsection \<open>Assigning courses\<close>

text \<open>
  The closure \<^verbatim>\<open>assign\<close> reads and writes \<^verbatim>\<open>schedule\<close> and \<^verbatim>\<open>periods\<close>; the pair
  of them is the state it is given and returns. Only an array can be iterated: for a slot
  that is no key the \<^verbatim>\<open>for\<close> loop over \<^verbatim>\<open>schedule[slot]\<close> throws.
\<close>

type_synonym state = "schedule \<times> int option"

definition truthy :: "int option \<Rightarrow> bool" where
  "truthy rooms \<longleftrightarrow> rooms \<noteq> None \<and> rooms \<noteq> Some 0"

text \<open>
  \<^verbatim>\<open>unavail && unavail[course.teacher] && unavail[course.teacher].includes(slot)\<close>:
  calling the \<^verbatim>\<open>includes\<close> of a value that has none throws.
\<close>

definition unavailable :: "unavail \<Rightarrow> course \<Rightarrow> slot \<Rightarrow> exn + bool" where
  "unavailable unavail course slot =
     (case unavail of
        None \<Rightarrow> Inr False
      | Some u \<Rightarrow>
          (case js_get u (teacher course) of
             Undefined \<Rightarrow> Inr False
           | Array ss \<Rightarrow> Inr (slot \<in> set ss)
           | Function n \<Rightarrow> Inl (TypeError ''unavail[course.teacher].includes is not a function'')
           | Prototype \<Rightarrow> Inl (TypeError ''unavail[course.teacher].includes is not a function'')))"

text \<open>
  \<^verbatim>\<open>rooms && schedule[slot].length === rooms\<close>: whether the first check is made and
  rejects. Reading \<^verbatim>\<open>length\<close> from \<^verbatim>\<open>undefined\<close> throws; the prototype object has none,
  and \<^verbatim>\<open>undefined === rooms\<close> is false.
\<close>

definition full :: "int option \<Rightarrow> schedule \<Rightarrow> slot \<Rightarrow> exn + bool" where
  "full rooms schedule slot =
     (if truthy rooms then
        (case js_get (map_of schedule) slot of
           Undefined \<Rightarrow> Inl (TypeError ''Cannot read properties of undefined (reading 'length')'')
         | Array occ \<Rightarrow> Inr (Some (int (length occ)) = rooms)
         | Function n \<Rightarrow> Inr (Some (int n) = rooms)
         | Prototype \<Rightarrow> Inr False)
      else Inr False)"

definition assign :: "int option \<Rightarrow> unavail \<Rightarrow> course \<Rightarrow> slot \<Rightarrow> state \<Rightarrow> exn + (bool \<times> state)" where
  "assign rooms unavail course slot st =
     (case st of (schedule, periods) \<Rightarrow>
        (case full rooms schedule slot of
           Inl e \<Rightarrow> Inl e
         | Inr True \<Rightarrow> Inr (False, st)
         | Inr False \<Rightarrow>
             (case unavailable unavail course slot of
                Inl e \<Rightarrow> Inl e
              | Inr True \<Rightarrow> Inr (False, st)
              | Inr False \<Rightarrow>
                  (case js_get (map_of schedule) slot of
                     Array occ \<Rightarrow>
                       if \<exists>scheduled \<in> set occ. conflict course scheduled then Inr (False, st)
                       else Inr (True,
                         (AList.update slot (occ @ [course]) schedule,
                          js_max periods (parseInt (js_index (js_split CHR ''.'' slot) 1))))
                   | _ \<Rightarrow> Inl (TypeError ''schedule[slot] is not iterable'')))))"

text \<open>The loop over \<^verbatim>\<open>course.prefs\<close>, with its \<^verbatim>\<open>break\<close>.\<close>

fun prefs_loop ::
  "int option \<Rightarrow> unavail \<Rightarrow> course \<Rightarrow> slot list \<Rightarrow> int \<Rightarrow> state \<Rightarrow> exn + (int \<times> state)" where
  "prefs_loop rooms unavail course [] allotted st = Inr (allotted, st)"
| "prefs_loop rooms unavail course (slot # slots) allotted st =
     (case assign rooms unavail course slot st of
        Inl e \<Rightarrow> Inl e
      | Inr (ok, st') \<Rightarrow>
          if ok then
            (if allotted + 1 \<ge> lectures course then Inr (allotted + 1, st')
             else prefs_loop rooms unavail course slots (allotted + 1) st')
          else prefs_loop rooms unavail course slots allotted st')"

text \<open>The loop \<^verbatim>\<open>for (let slot in schedule)\<close> over the keys, skipping the preferences.\<close>

fun fallback_loop ::
  "int option \<Rightarrow> unavail \<Rightarrow> course \<Rightarrow> slot list \<Rightarrow> int \<Rightarrow> state \<Rightarrow> exn + (int \<times> state)" where
  "fallback_loop rooms unavail course [] allotted st = Inr (allotted, st)"
| "fallback_loop rooms unavail course (slot # slots) allotted st =
     (if slot \<notin> set (prefs course) then
        (case assign rooms unavail course slot st of
           Inl e \<Rightarrow> Inl e
         | Inr (ok, st') \<Rightarrow>
             if ok then
               (if allotted + 1 \<ge> lectures course then Inr (allotted + 1, st')
                else fallback_loop rooms unavail course slots (allotted + 1) st')
             else fallback_loop rooms unavail course slots allotted st')
      else fallback_loop rooms unavail course slots allotted st)"

text \<open>
  The body of \<^verbatim>\<open>for (let course of courses)\<close>: both phases, then the test that decides
  whether the course joins \<^verbatim>\<open>unassigned\<close>.
\<close>

definition phase1 :: "int option \<Rightarrow> unavail \<Rightarrow> course \<Rightarrow> state \<Rightarrow> exn + (int \<times> state)" where
  "phase1 rooms unavail course st =
     (if length (prefs course) > 0 then prefs_loop rooms unavail course (prefs course) 0 st
      else Inr (0, st))"

definition phase2 :: "int option \<Rightarrow> unavail \<Rightarrow> course \<Rightarrow> int \<Rightarrow> state \<Rightarrow> exn + (int \<times> state)" where
  "phase2 rooms unavail course allotted st =
     (if allotted < lectures course
      then fallback_loop rooms unavail course (map fst (fst st)) allotted st
      else Inr (allotted, st))"

definition allot :: "int option \<Rightarrow> unavail \<Rightarrow> course \<Rightarrow> state \<Rightarrow> exn + (int \<times> state)" where
  "allot rooms unavail course st =
     (case phase1 rooms unavail course st of
        Inl e \<Rightarrow> Inl e
      | Inr (allotted, st') \<Rightarrow> phase2 rooms unavail course allotted st')"

fun courses_loop ::
  "int option \<Rightarrow> unavail \<Rightarrow> course list \<Rightarrow> state \<Rightarrow> course list \<Rightarrow> exn + (state \<times> course list)" where
  "courses_loop rooms unavail [] st unassigned = Inr (st, unassigned)"
| "courses_loop rooms unavail (course # courses) st unassigned =
     (case allot rooms unavail course st of
        Inl e \<Rightarrow> Inl e
      | Inr (allotted, st') \<Rightarrow>
          courses_loop rooms unavail courses st'
            (if allotted < lectures course then unassigned @ [course] else unassigned))"

definition assignCourses ::
  "course list \<Rightarrow> schedule \<Rightarrow> int option \<Rightarrow> unavail \<Rightarrow> exn + (schedule \<times> int option \<times> course list)" where
  "assignCourses courses schedule rooms unavail =
     (case courses_loop rooms unavail courses (schedule, Some 0) [] of
        Inl e \<Rightarrow> Inl e
      | Inr ((schedule', periods), unassigned) \<Rightarrow> Inr (schedule', periods, unassigned))"

subsection \<open>The main function\<close>

text \<open>
  The result array \<^verbatim>\<open>[schedule, periods, unassigned, error]\<close>. \<^const>\<open>None\<close> as the
  outcome of the whole call stands for a call that does not return.
\<close>

type_synonym result = "schedule \<times> int option \<times> course list \<times> string option"

definition scheduler_try :: "course list \<Rightarrow> int \<Rightarrow> int option \<Rightarrow> unavail \<Rightarrow> (exn + result) option" where
  "scheduler_try courses days rooms unavail =
     (case init_schedule days of
        None \<Rightarrow> None
      | Some schedule \<Rightarrow>
          Some (case assignCourses (js_sort compare_courses (calculateConflicts courses unavail))
                       schedule rooms unavail of
                  Inl e \<Rightarrow> Inl e
                | Inr (updatedSchedule, periods, unassigned) \<Rightarrow>
                    Inr (updatedSchedule, periods, unassigned,
                         if length unassigned > 0 then Some ''Unable to schedule all classes.''
                         else None)))"

definition scheduler :: "course list \<Rightarrow> int \<Rightarrow> int option \<Rightarrow> unavail \<Rightarrow> result option" where
  "scheduler courses days rooms unavail =
     (case scheduler_try courses days rooms unavail of
        None \<Rightarrow> None
      | Some (Inr r) \<Rightarrow> Some r
      | Some (Inl e) \<Rightarrow>
          Some ([], Some 0, [],
                Some (''An unexpected error occurred during scheduling: '' @ message e)))"

subsection \<open>The submit handler\<close>

text \<open>
  The handler reads \<^verbatim>\<open>days = parseInt(..)\<close> and \<^verbatim>\<open>rooms = parseInt(..) || null\<close> from the
  form, and returns after \<^verbatim>\<open>displayError("Invalid value for days or rooms")\<close> when
  \<^verbatim>\<open>days < 1 || days > 7 || (rooms !== null && rooms < 1)\<close>. Only then are the files read
  and is \<^verbatim>\<open>scheduler\<close> called, with the courses and the unavailability map made from them.
\<close>

datatype outcome = DisplayError string | Scheduled "result option"

definition submit :: "int \<Rightarrow> int option \<Rightarrow> course list \<Rightarrow> unavail \<Rightarrow> outcome" where
  "submit days rooms courses unavail =
     (if days < 1 \<or> days > 7 \<or> (case rooms of None \<Rightarrow> False | Some r \<Rightarrow> r < 1)
      then DisplayError ''Invalid value for days or rooms''
      else Scheduled (scheduler courses days rooms unavail))"

subsection \<open>The grid in the words of the specification\<close>

text \<open>
  The canonical enumeration of the slot grid: periods outer and ascending, days inner and
  ascending, the periods bounded by the budget of 1000 slots divided by the day count.
\<close>

definition canonical_slots :: "int \<Rightarrow> slot list" where
  "canonical_slots days =
     concat (map (\<lambda>period. map (\<lambda>day. slot_key day period) [1..days]) [1..1000 div days])"

text \<open>
  The highest period index among the slots of the grid with a non-empty occupancy list,
  0 if there is none.
\<close>

definition occupied :: "schedule \<Rightarrow> slot \<Rightarrow> bool" where
  "occupied schedule slot = (case map_of schedule slot of None \<Rightarrow> False | Some occ \<Rightarrow> occ \<noteq> [])"

definition maxPeriodUsed :: "int \<Rightarrow> schedule \<Rightarrow> int" where
  "maxPeriodUsed days schedule =
     Max (set (0 # concat (map (\<lambda>period. concat (map (\<lambda>day.
            if occupied schedule (slot_key day period) then [period] else []) [1..days]))
          [1..1000 div days])))"



text \<open>
  The order of the courses: priority tier ascending, then conflict score descending, then
  id ascending. It relates courses whose scores are numbers.
\<close>

definition precedes :: "course \<Rightarrow> course \<Rightarrow> bool" where
  "precedes a b \<longleftrightarrow>
     (case (conflicts a, conflicts b) of
        (Some x, Some y) \<Rightarrow>
          priority a < priority b \<or>
          (priority a = priority b \<and> (x > y \<or> (x = y \<and> id_c a \<le> id_c b)))
      | _ \<Rightarrow> False)"

subsection \<open>Invariants of the allocation\<close>

text \<open>
  The schedule and the period counter change in \<^const>\<open>assign\<close> only, so a property of
  the state that every call of \<^const>\<open>assign\<close> keeps is kept by the whole allocation.
\<close>

definition preserved :: "(state \<Rightarrow> bool) \<Rightarrow> int option \<Rightarrow> unavail \<Rightarrow> bool" where
  "preserved I rooms unavail \<longleftrightarrow>
     (\<forall>course slot st ok st'.
        I st \<longrightarrow> assign rooms unavail course slot st = Inr (ok, st') \<longrightarrow> I st')"

text \<open>The periods of the grid that have an occupied slot, and the invariant of the counter.\<close>

definition used_periods :: "int \<Rightarrow> schedule \<Rightarrow> int set" where
  "used_periods days schedule =
     {p. 1 \<le> p \<and> p \<le> 1000 div days \<and> (\<exists>d. 1 \<le> d \<and> d \<le> days \<and> occupied schedule (slot_key d p))}"

definition periods_inv :: "int \<Rightarrow> state \<Rightarrow> bool" where
  "periods_inv days st \<longleftrightarrow>
     fst ` set (fst st) \<subseteq> set (canonical_slots days) \<and> snd st = Some (maxPeriodUsed days (fst st))"

text \<open>No two positions of an occupancy list hold courses in conflict.\<close>

definition conflict_free :: "course list \<Rightarrow> bool" where
  "conflict_free occ \<longleftrightarrow>
     (\<forall>i<length occ. \<forall>j<length occ. i \<noteq> j \<longrightarrow> \<not> conflict (occ ! i) (occ ! j))"

subsection \<open>A sample run\<close>

text \<open>
  Four courses as \<^verbatim>\<open>processCourses\<close> builds them from rows without \<^verbatim>\<open>slots\<close>, for a
  run with one day, two rooms and one teacher who is unavailable in the first period.
\<close>

definition algebra :: course where
  "algebra = Course 0 ''Algebra'' ''Khan'' [''A''] 1 2 []"

definition physics :: course where
  "physics = Course 1 ''Physics'' ''Lee'' [''B''] 1 2 []"

definition chemistry :: course where
  "chemistry = Course 2 ''Chemistry'' ''Noor'' [''C''] 1 2 []"

definition biology :: course where
  "biology = Course 3 ''Biology'' ''Omar'' [''D''] 1 2 []"

definition khan_away :: "string \<rightharpoonup> slot list" where
  "khan_away = [''Khan'' \<mapsto> [''1.1'']]"

text \<open>
  Four rows in the order of the file, the second with the teacher name \<^verbatim>\<open>__proto__\<close> and
  the fourth with \<^verbatim>\<open>slots\<close> given as a lone comma, which puts it in tier 1 with no
  preference; and an unavailability object with an entry for one teacher.
\<close>

definition row_physics :: course where
  "row_physics = Course 0 ''Physics'' ''Lee'' [''B''] 1 2 []"

definition row_logic :: course where
  "row_logic = Course 1 ''Logic'' ''__proto__'' [''C''] 1 2 []"

definition row_algebra :: course where
  "row_algebra = Course 2 ''Algebra'' ''Khan'' [''A''] 1 2 []"

definition row_art :: course where
  "row_art = Course 3 ''Art'' ''Omar'' [''D''] 1 1 []"

definition khan_busy :: "string \<rightharpoonup> slot list" where
  "khan_busy = [''Khan'' \<mapsto> [''2.1'', ''2.2'', ''2.3'']]"

text \<open>
  Two courses with preferred slots, for a run with one day: the second one asks for two
  sessions and names a slot of a second day.
\<close>

definition algebra_early :: course where
  "algebra_early = Course 0 ''Algebra'' ''Khan'' [''A''] 1 1 [''1.1'']"

definition physics_twice :: course where
  "physics_twice = Course 1 ''Physics'' ''Lee'' [''B''] 2 1 [''1.2'', ''2.1'']"


section \<open>Slot keys\<close>

text \<open>
  A key printed from a day and a period splits at its dot into the two decimal numerals,
  and \<^const>\<open>parseInt\<close> reads each numeral back.
\<close>

lemma lt10_cases: "k < 10 \<Longrightarrow> k \<in> {0, 1, 2, 3, 4, 5, 6, 7, 8, 9 :: nat}"
  by auto

lemma digit_value_digit_char: "k < 10 \<Longrightarrow> digit_value (digit_char k) = Some k"
  by (drule lt10_cases) (auto simp: digit_char_def digit_value_def)

lemma digit_char_neq: "k < 10 \<Longrightarrow> digit_char k \<notin> {CHR ''.'', CHR ''-'', CHR ''+'', CHR ''x'', CHR ''X''} \<and> \<not> is_space (digit_char k)"
  by (drule lt10_cases) (auto simp: digit_char_def is_space_def)

lemma is_digit_digit_char: "k < 10 \<Longrightarrow> is_digit 10 (digit_char k)"
  by (simp add: is_digit_def digit_value_digit_char)

lemma show_nat_digits: "c \<in> set (show_nat n) \<Longrightarrow> \<exists>k<10. c = digit_char k"
proof (induction n rule: show_nat.induct)
  case (1 n)
  show ?case
  proof (cases "n < 10")
    case True
    with "1.prems" show ?thesis by (auto simp: show_nat.simps [of n])
  next
    case False
    with "1.prems" have "c \<in> set (show_nat (n div 10)) \<or> c = digit_char (n mod 10)"
      by (auto simp: show_nat.simps [of n])
    then show ?thesis
    proof
      assume "c \<in> set (show_nat (n div 10))"
      with False "1.IH" show ?thesis by simp
    next
      assume "c = digit_char (n mod 10)"
      then show ?thesis by (intro exI [of _ "n mod 10"]) simp
    qed
  qed
qed

lemma show_nat_nonempty: "show_nat n \<noteq> []"
  by (subst show_nat.simps) simp

lemma digits_value_snoc: "digits_value r (ds @ [c]) = digits_value r ds * r + the (digit_value c)"
  by (simp add: digits_value_def)

lemma digits_value_show_nat: "digits_value 10 (show_nat n) = n"
proof (induction n rule: show_nat.induct)
  case (1 n)
  show ?case
  proof (cases "n < 10")
    case True
    then show ?thesis
      by (simp add: show_nat.simps [of n] digits_value_def digit_value_digit_char)
  next
    case False
    with "1.IH" have "digits_value 10 (show_nat (n div 10)) = n div 10" by simp
    with False show ?thesis
      by (simp add: show_nat.simps [of n] digits_value_snoc digit_value_digit_char)
  qed
qed

lemma takeWhile_show_nat: "takeWhile (is_digit 10) (show_nat n) = show_nat n"
  by (rule takeWhile_eq_all_conv [THEN iffD2]) (auto dest!: show_nat_digits simp: is_digit_digit_char)

lemma parse_digits_show_nat: "parse_digits 10 (show_nat n) = Some n"
  using show_nat_nonempty [of n] digits_value_show_nat [of n]
  by (auto simp: parse_digits_def takeWhile_show_nat split: list.splits)

lemma show_nat_no_prefix: "take 2 (show_nat n) \<noteq> ''0x'' \<and> take 2 (show_nat n) \<noteq> ''0X''"
proof -
  have "\<forall>c \<in> set (take 2 (show_nat n)). c \<noteq> CHR ''x'' \<and> c \<noteq> CHR ''X''"
    using show_nat_digits digit_char_neq by (fastforce dest: in_set_takeD)
  then show ?thesis by (metis list.set_intros(1,2))
qed

lemma parse_unsigned_show_nat: "parse_unsigned (show_nat n) = Some n"
  using show_nat_no_prefix [of n] by (simp add: parse_unsigned_def parse_digits_show_nat)

lemma parseInt_show_nat: "parseInt (Some (show_nat n)) = Some (int n)"
proof -
  obtain c cs where s: "show_nat n = c # cs"
    using show_nat_nonempty [of n] by (cases "show_nat n") auto
  then have "c \<in> set (show_nat n)" by simp
  then obtain k where "k < 10" "c = digit_char k" using show_nat_digits by blast
  then have c: "\<not> is_space c" "c \<noteq> CHR ''-''" "c \<noteq> CHR ''+''"
    using digit_char_neq [of k] by auto
  have "parseInt (Some (c # cs)) = map_option int (parse_unsigned (c # cs))"
    using c by (simp add: parseInt_def)
  then show ?thesis using parse_unsigned_show_nat [of n] by (simp add: s)
qed

lemma show_nat_no_dot: "CHR ''.'' \<notin> set (show_nat n)"
  using show_nat_digits digit_char_neq by fastforce

lemma split_from_no_sep: "sep \<notin> set s \<Longrightarrow> split_from sep piece s = [piece @ s]"
  by (induction s arbitrary: piece) auto

lemma split_from_one_sep:
  "sep \<notin> set a \<Longrightarrow> sep \<notin> set b \<Longrightarrow> split_from sep piece (a @ sep # b) = [piece @ a, b]"
  by (induction a arbitrary: piece) (auto simp: split_from_no_sep)

lemma js_split_slot_key:
  "0 \<le> d \<Longrightarrow> 0 \<le> p \<Longrightarrow> js_split CHR ''.'' (slot_key d p) = [show_nat (nat d), show_nat (nat p)]"
  using split_from_one_sep [of "CHR ''.''" "show_nat (nat d)" "show_nat (nat p)" "[]"]
  by (simp add: js_split_def slot_key_def show_int_def show_nat_no_dot)

lemma period_of_slot_key:
  "0 \<le> d \<Longrightarrow> 0 \<le> p \<Longrightarrow> parseInt (js_index (js_split CHR ''.'' (slot_key d p)) 1) = Some p"
  by (simp add: js_split_slot_key js_index_def parseInt_show_nat)

lemma day_of_slot_key:
  "0 \<le> d \<Longrightarrow> 0 \<le> p \<Longrightarrow> parseInt (js_index (js_split CHR ''.'' (slot_key d p)) 0) = Some d"
  by (simp add: js_split_slot_key js_index_def parseInt_show_nat)

lemma slot_key_inject:
  assumes "0 \<le> d" "0 \<le> p" "0 \<le> d'" "0 \<le> p'" "slot_key d p = slot_key d' p'"
  shows "d = d' \<and> p = p'"
proof -
  have "Some p = Some p'"
    using period_of_slot_key [OF assms(1,2)] period_of_slot_key [OF assms(3,4)]
    by (simp only: assms(5))
  moreover have "Some d = Some d'"
    using day_of_slot_key [OF assms(1,2)] day_of_slot_key [OF assms(3,4)]
    by (simp only: assms(5))
  ultimately show ?thesis by simp
qed

section \<open>The initial schedule\<close>

text \<open>
  For a day count other than 0 the two loops create the keys of the canonical enumeration,
  each once and each with an empty array. For 0 the outer loop has no exit.
\<close>

lemma update_fresh: "k \<notin> fst ` set al \<Longrightarrow> AList.update k v al = al @ [(k, v)]"
  by (induction al) auto

lemma init_days_fresh:
  "1 \<le> day \<Longrightarrow> 0 \<le> period \<Longrightarrow>
   \<forall>d. day \<le> d \<and> d \<le> days \<longrightarrow> slot_key d period \<notin> fst ` set schedule \<Longrightarrow>
   init_days days period day schedule =
     schedule @ map (\<lambda>d. (slot_key d period, [])) [day..days]"
proof (induction days period day schedule rule: init_days.induct)
  case (1 days period day schedule)
  show ?case
  proof (cases "day \<le> days")
    case False
    then show ?thesis by (simp add: init_days.simps [of days period day])
  next
    case True
    let ?s = "AList.update (slot_key day period) [] schedule"
    have upd: "?s = schedule @ [(slot_key day period, [])]"
      using "1.prems"(3) True by (intro update_fresh) simp
    have fresh: "\<forall>d. day + 1 \<le> d \<and> d \<le> days \<longrightarrow> slot_key d period \<notin> fst ` set ?s"
    proof (intro allI impI)
      fix d assume d: "day + 1 \<le> d \<and> d \<le> days"
      then have "slot_key d period \<noteq> slot_key day period"
        using slot_key_inject [of d period day period] "1.prems"(1,2) by auto
      moreover have "slot_key d period \<notin> fst ` set schedule"
        using "1.prems"(3) d by simp
      ultimately show "slot_key d period \<notin> fst ` set ?s"
        by (simp add: upd)
    qed
    have "init_days days period (day + 1) ?s =
            ?s @ map (\<lambda>d. (slot_key d period, [])) [day + 1..days]"
      using "1.IH" [OF True _ "1.prems"(2) fresh] "1.prems"(1) by simp
    then show ?thesis
      using True by (simp add: init_days.simps [of days period day] upd upto_rec1 [of day days])
  qed
qed

lemma init_periods_finite:
  assumes "days \<noteq> 0"
  shows "1 \<le> period \<Longrightarrow>
     \<forall>k \<in> fst ` set schedule. \<exists>d p. k = slot_key d p \<and> 1 \<le> d \<and> 1 \<le> p \<and> p < period \<Longrightarrow>
     init_periods days period schedule =
       Some (schedule @ concat (map (\<lambda>p. map (\<lambda>d. (slot_key d p, [])) [1..days])
                                 [period..1000 div days]))"
proof (induction "nat (1000 div days + 1 - period)" arbitrary: period schedule)
  case 0
  then have "\<not> period \<le> 1000 div days" by simp
  then show ?case
    using assms by (subst init_periods.simps) (simp add: period_bound_def)
next
  case (Suc n)
  then have le: "period \<le> 1000 div days" by simp
  let ?s = "init_days days period 1 schedule"
  have fresh: "\<forall>d. 1 \<le> d \<and> d \<le> days \<longrightarrow> slot_key d period \<notin> fst ` set schedule"
  proof (intro allI impI notI)
    fix d assume d: "1 \<le> d \<and> d \<le> days" and "slot_key d period \<in> fst ` set schedule"
    then obtain d' p' where "slot_key d period = slot_key d' p'" "1 \<le> d'" "1 \<le> p'" "p' < period"
      using Suc.prems(2) by blast
    then show False
      using slot_key_inject [of d period d' p'] d Suc.prems(1) by simp
  qed
  have s: "?s = schedule @ map (\<lambda>d. (slot_key d period, [])) [1..days]"
    using init_days_fresh [of 1 period days schedule] fresh Suc.prems(1) by simp
  have keys: "\<forall>k \<in> fst ` set ?s. \<exists>d p. k = slot_key d p \<and> 1 \<le> d \<and> 1 \<le> p \<and> p < period + 1"
  proof
    fix k assume "k \<in> fst ` set ?s"
    then consider "k \<in> fst ` set schedule" | d where "k = slot_key d period" "1 \<le> d"
      by (auto simp: s)
    then show "\<exists>d p. k = slot_key d p \<and> 1 \<le> d \<and> 1 \<le> p \<and> p < period + 1"
    proof cases
      case 1
      then show ?thesis using Suc.prems(2) by fastforce
    next
      case 2
      then show ?thesis using Suc.prems(1) by (intro exI [of _ d] exI [of _ period]) simp
    qed
  qed
  have n: "n = nat (1000 div days + 1 - (period + 1))" using Suc.hyps(2) by simp
  have "init_periods days (period + 1) ?s =
          Some (?s @ concat (map (\<lambda>p. map (\<lambda>d. (slot_key d p, [])) [1..days])
                                 [period + 1..1000 div days]))"
    using Suc.hyps(1) [OF n _ keys] Suc.prems(1) by simp
  then show ?case
    using le assms
    by (subst init_periods.simps) (simp add: period_bound_def s upto_rec1 [of period "1000 div days"])
qed

lemma init_schedule_finite:
  "days \<noteq> 0 \<Longrightarrow> init_schedule days = Some (map (\<lambda>k. (k, [])) (canonical_slots days))"
  using init_periods_finite [of days 1 "[]"]
  by (simp add: init_schedule_def canonical_slots_def map_concat comp_def)

lemma init_periods_zero: "init_periods days period schedule = Some y \<Longrightarrow> days \<noteq> 0"
  by (rule init_periods.raw_induct [where P = "\<lambda>days period schedule y. days \<noteq> 0"])
    (auto simp: period_bound_def split: if_splits)

lemma init_schedule_zero: "init_schedule 0 = None"
  using init_periods_zero [of 0 1 "[]"] by (cases "init_schedule 0") (auto simp: init_schedule_def)

lemma canonical_slots_form:
  "k \<in> set (canonical_slots days) \<longleftrightarrow>
     (\<exists>d p. k = slot_key d p \<and> 1 \<le> d \<and> d \<le> days \<and> 1 \<le> p \<and> p \<le> 1000 div days)"
proof
  assume "k \<in> set (canonical_slots days)"
  then obtain p d where "k = slot_key d p" "p \<in> set [1..1000 div days]" "d \<in> set [1..days]"
    by (auto simp: canonical_slots_def)
  then show "\<exists>d p. k = slot_key d p \<and> 1 \<le> d \<and> d \<le> days \<and> 1 \<le> p \<and> p \<le> 1000 div days"
    by (intro exI [of _ d] exI [of _ p]) simp
next
  assume "\<exists>d p. k = slot_key d p \<and> 1 \<le> d \<and> d \<le> days \<and> 1 \<le> p \<and> p \<le> 1000 div days"
  then obtain d p where "k = slot_key d p" "d \<in> set [1..days]" "p \<in> set [1..1000 div days]"
    by auto
  then show "k \<in> set (canonical_slots days)"
    by (auto simp: canonical_slots_def intro!: bexI [of _ p] image_eqI [of _ _ d])
qed

lemma concat_map_product:
  "concat (map (\<lambda>p. map (f p) ds) ps) = map (\<lambda>(p, d). f p d) (List.product ps ds)"
  by (induction ps) (simp_all add: comp_def)

lemma distinct_canonical_slots: "distinct (canonical_slots days)"
proof -
  have "inj_on (\<lambda>(p, d). slot_key d p) (set (List.product [1..1000 div days] [1..days]))"
  proof (rule inj_onI)
    fix x y
    assume x: "x \<in> set (List.product [1..1000 div days] [1..days])"
      and y: "y \<in> set (List.product [1..1000 div days] [1..days])"
      and eq: "(case x of (p, d) \<Rightarrow> slot_key d p) = (case y of (p, d) \<Rightarrow> slot_key d p)"
    obtain p d where xp: "x = (p, d)" by (cases x)
    obtain q e where yq: "y = (q, e)" by (cases y)
    have "1 \<le> p" "1 \<le> d" "1 \<le> q" "1 \<le> e" using x y by (simp_all add: xp yq)
    moreover have "slot_key d p = slot_key e q" using eq by (simp add: xp yq)
    ultimately show "x = y" using slot_key_inject [of d p e q] by (simp add: xp yq)
  qed
  moreover have "distinct (List.product [1..1000 div days] [1..days])"
    by (simp add: distinct_product)
  ultimately show ?thesis
    unfolding canonical_slots_def concat_map_product [of "\<lambda>p d. slot_key d p"]
    by (simp add: distinct_map)
qed

section \<open>What a run keeps invariant\<close>

text \<open>
  A call of \<^const>\<open>assign\<close> that returns either leaves the state as it is and answers
  \<^verbatim>\<open>false\<close>, or has passed all three checks on a slot that is a key and appends the course
  there.
\<close>

lemma js_get_Array: "js_get obj key = Array v \<longleftrightarrow> obj key = Some v"
  by (auto simp: js_get_def inherited_def split: option.splits)

lemma js_get_Some: "obj key = Some v \<Longrightarrow> js_get obj key = Array v"
  by (simp add: js_get_def)

lemma assign_Inr:
  assumes "assign rooms u c slot (schedule, periods) = Inr (ok, st')"
  shows "(\<not> ok \<and> st' = (schedule, periods)) \<or>
         (ok \<and> (\<exists>occ. map_of schedule slot = Some occ \<and>
                  \<not> (truthy rooms \<and> Some (int (length occ)) = rooms) \<and>
                  unavailable u c slot = Inr False \<and>
                  (\<forall>scheduled \<in> set occ. \<not> conflict c scheduled) \<and>
                  st' = (AList.update slot (occ @ [c]) schedule,
                         js_max periods (parseInt (js_index (js_split CHR ''.'' slot) 1)))))"
  using assms
  by (auto simp: assign_def full_def js_get_Array split: if_splits sum.splits bool.splits jsval.splits)


lemma prefs_loop_preserves:
  assumes step: "preserved I rooms u"
  shows "I st \<Longrightarrow> prefs_loop rooms u c slots a st = Inr (a', st') \<Longrightarrow> I st'"
proof (induction slots arbitrary: a st)
  case Nil
  then show ?case by simp
next
  case (Cons slot slots)
  from Cons.prems(2) obtain ok st1 where a: "assign rooms u c slot st = Inr (ok, st1)"
    by (auto split: sum.splits)
  then have "I st1" using step Cons.prems(1) unfolding preserved_def by blast
  then show ?case
    using Cons.prems(2) Cons.IH a by (auto split: if_splits)
qed

lemma fallback_loop_preserves:
  assumes step: "preserved I rooms u"
  shows "I st \<Longrightarrow> fallback_loop rooms u c slots a st = Inr (a', st') \<Longrightarrow> I st'"
proof (induction slots arbitrary: a st)
  case Nil
  then show ?case by simp
next
  case (Cons slot slots)
  show ?case
  proof (cases "slot \<in> set (prefs c)")
    case True
    then show ?thesis using Cons by simp
  next
    case False
    with Cons.prems(2) obtain ok st1 where a: "assign rooms u c slot st = Inr (ok, st1)"
      by (auto split: sum.splits)
    then have "I st1" using step Cons.prems(1) unfolding preserved_def by blast
    then show ?thesis
      using Cons.prems(2) Cons.IH a False by (auto split: if_splits)
  qed
qed

lemma allot_preserves:
  assumes step: "preserved I rooms u"
    and "I st" and "allot rooms u c st = Inr (a', st')"
  shows "I st'"
proof -
  from assms(3) obtain a1 st1 where p1: "phase1 rooms u c st = Inr (a1, st1)"
    and p2: "phase2 rooms u c a1 st1 = Inr (a', st')"
    by (auto simp: allot_def split: sum.splits)
  have "I st1"
    using p1 assms(2) prefs_loop_preserves [OF step]
    by (auto simp: phase1_def split: if_splits)
  then show ?thesis
    using p2 fallback_loop_preserves [OF step]
    by (auto simp: phase2_def split: if_splits)
qed

lemma courses_loop_preserves:
  assumes step: "preserved I rooms u"
  shows "I st \<Longrightarrow> courses_loop rooms u cs st un = Inr (st', un') \<Longrightarrow> I st'"
proof (induction cs arbitrary: st un)
  case Nil
  then show ?case by simp
next
  case (Cons c cs)
  from Cons.prems(2) obtain a st1 where a: "allot rooms u c st = Inr (a, st1)"
    by (auto split: sum.splits)
  then have "I st1"
    using allot_preserves [OF step Cons.prems(1)]
    by blast
  then show ?case using Cons.prems(2) Cons.IH a by auto
qed

lemma assignCourses_preserves:
  assumes step: "preserved I rooms u"
    and "I (schedule, Some 0)"
    and "assignCourses cs schedule rooms u = Inr (schedule', periods, unassigned)"
  shows "I (schedule', periods)"
  using assms(3) courses_loop_preserves [OF step assms(2)]
  by (auto simp: assignCourses_def split: sum.splits)

lemma scheduler_cases:
  assumes "scheduler cs days rooms u = Some (schedule', periods, unassigned, err)"
  shows "(\<exists>e. schedule' = [] \<and> periods = Some 0 \<and> unassigned = [] \<and>
             scheduler_try cs days rooms u = Some (Inl e) \<and>
             err = Some (''An unexpected error occurred during scheduling: '' @ message e)) \<or>
         (\<exists>schedule. init_schedule days = Some schedule \<and>
             assignCourses (js_sort compare_courses (calculateConflicts cs u)) schedule rooms u =
               Inr (schedule', periods, unassigned) \<and>
             err = (if length unassigned > 0 then Some ''Unable to schedule all classes.'' else None))"
  using assms
  by (auto simp: scheduler_def scheduler_try_def split: option.splits sum.splits)

lemma scheduler_invariant:
  assumes step: "preserved I rooms u"
    and init: "\<And>schedule. init_schedule days = Some schedule \<Longrightarrow> I (schedule, Some 0)"
    and empty: "I ([], Some 0)"
    and run: "scheduler cs days rooms u = Some (schedule', periods, unassigned, err)"
  shows "I (schedule', periods)"
  using scheduler_cases [OF run] empty init
    assignCourses_preserves [OF step]
  by blast

lemma scheduler_returns: "days \<noteq> 0 \<Longrightarrow> \<exists>r. scheduler cs days rooms u = Some r"
  by (simp add: scheduler_def scheduler_try_def init_schedule_finite split: sum.splits)

lemma scheduler_diverges: "scheduler cs 0 rooms u = None"
  by (simp add: scheduler_def scheduler_try_def init_schedule_zero)

lemma set_update_subset: "set (AList.update k v al) \<subseteq> insert (k, v) (set al)"
  by (induction al) auto

lemma map_fst_update: "map_of al k = Some w \<Longrightarrow> map fst (AList.update k v al) = map fst al"
  by (induction al) (auto split: if_splits)

subsection \<open>Properties of the entries\<close>

lemma conflict_sym: "conflict a b = conflict b a"
  by (auto simp: conflict_def)

lemma conflict_refl: "conflict c c"
  by (simp add: conflict_def)

lemma conflict_iff: "conflict a b \<longleftrightarrow> teacher a = teacher b \<or> section_c a \<inter> section_c b \<noteq> {}"
  by (auto simp: conflict_def)

lemma conflict_free_snoc:
  assumes "conflict_free occ" "\<forall>scheduled \<in> set occ. \<not> conflict c scheduled"
  shows "conflict_free (occ @ [c])"
  unfolding conflict_free_def
proof (intro allI impI)
  fix i j assume ij: "i < length (occ @ [c])" "j < length (occ @ [c])" "i \<noteq> j"
  consider "i < length occ" "j < length occ" | "i = length occ" "j < length occ"
    | "i < length occ" "j = length occ"
    using ij by (cases "i < length occ"; cases "j < length occ") auto
  then show "\<not> conflict ((occ @ [c]) ! i) ((occ @ [c]) ! j)"
  proof cases
    case 1
    then show ?thesis using assms(1) ij(3) by (simp add: conflict_free_def nth_append)
  next
    case 2
    then show ?thesis using assms(2) by (simp add: nth_append)
  next
    case 3
    then show ?thesis using assms(2) conflict_sym [of c] by (simp add: nth_append)
  qed
qed

lemma preserved_entries:
  assumes "\<And>c slot occ. Q slot occ \<Longrightarrow> \<not> (truthy rooms \<and> Some (int (length occ)) = rooms) \<Longrightarrow>
              unavailable u c slot = Inr False \<Longrightarrow> \<forall>scheduled \<in> set occ. \<not> conflict c scheduled \<Longrightarrow>
              Q slot (occ @ [c])"
  shows "preserved (\<lambda>st. \<forall>(slot, occ) \<in> set (fst st). Q slot occ) rooms u"
  unfolding preserved_def
proof (intro allI impI)
  fix c slot st ok st'
  assume inv: "\<forall>(slot, occ) \<in> set (fst st). Q slot occ"
    and a: "assign rooms u c slot st = Inr (ok, st')"
  obtain schedule periods where st: "st = (schedule, periods)" by (cases st)
  from assign_Inr [OF a [unfolded st]]
  show "\<forall>(slot, occ) \<in> set (fst st'). Q slot occ"
  proof
    assume "\<not> ok \<and> st' = (schedule, periods)"
    then show ?thesis using inv st by simp
  next
    assume "ok \<and> (\<exists>occ. map_of schedule slot = Some occ \<and>
                  \<not> (truthy rooms \<and> Some (int (length occ)) = rooms) \<and>
                  unavailable u c slot = Inr False \<and>
                  (\<forall>scheduled \<in> set occ. \<not> conflict c scheduled) \<and>
                  st' = (AList.update slot (occ @ [c]) schedule,
                         js_max periods (parseInt (js_index (js_split CHR ''.'' slot) 1))))"
    then obtain occ where occ: "map_of schedule slot = Some occ"
      "\<not> (truthy rooms \<and> Some (int (length occ)) = rooms)" "unavailable u c slot = Inr False"
      "\<forall>scheduled \<in> set occ. \<not> conflict c scheduled"
      and st': "fst st' = AList.update slot (occ @ [c]) schedule" by auto
    have "(slot, occ) \<in> set schedule" using occ(1) by (rule map_of_SomeD)
    then have "Q slot occ" using inv st by auto
    then have "Q slot (occ @ [c])" using assms occ by blast
    then show ?thesis
      using inv st set_update_subset [of slot "occ @ [c]" schedule] by (auto simp: st')
  qed
qed

lemma init_entries_empty:
  "init_schedule days = Some schedule \<Longrightarrow> (slot, occ) \<in> set schedule \<Longrightarrow> occ = []"
  using init_periods_zero [of days 1 "[]" schedule] init_schedule_finite [of days]
  by (auto simp: init_schedule_def)

lemma scheduler_entries:
  assumes step: "\<And>c slot occ. Q slot occ \<Longrightarrow> \<not> (truthy rooms \<and> Some (int (length occ)) = rooms) \<Longrightarrow>
              unavailable u c slot = Inr False \<Longrightarrow> \<forall>scheduled \<in> set occ. \<not> conflict c scheduled \<Longrightarrow>
              Q slot (occ @ [c])"
    and empty: "\<And>slot. Q slot []"
    and run: "scheduler cs days rooms u = Some (schedule, periods, unassigned, err)"
    and entry: "(slot, occ) \<in> set schedule"
  shows "Q slot occ"
proof -
  have "\<forall>(slot, occ) \<in> set (fst (schedule, periods)). Q slot occ"
  proof (rule scheduler_invariant [OF preserved_entries _ _ run])
    show "\<And>c slot occ. Q slot occ \<Longrightarrow> \<not> (truthy rooms \<and> Some (int (length occ)) = rooms) \<Longrightarrow>
              unavailable u c slot = Inr False \<Longrightarrow> \<forall>scheduled \<in> set occ. \<not> conflict c scheduled \<Longrightarrow>
              Q slot (occ @ [c])" by (rule step)
    show "\<And>schedule. init_schedule days = Some schedule \<Longrightarrow>
        \<forall>(slot, occ) \<in> set (fst (schedule, Some 0)). Q slot occ"
      using empty by (auto dest: init_entries_empty)
    show "\<forall>(slot, occ) \<in> set (fst ([], Some 0)). Q slot occ" by simp
  qed
  then show ?thesis using entry by auto
qed

lemma conflict_free_run:
  assumes "scheduler cs days rooms u = Some (schedule, periods, unassigned, err)"
    and "(slot, occ) \<in> set schedule"
  shows "conflict_free occ"
proof (rule scheduler_entries [where Q = "\<lambda>slot occ. conflict_free occ", OF _ _ assms])
  fix c occ
  assume "conflict_free occ" "\<forall>scheduled \<in> set occ. \<not> conflict c scheduled"
  then show "conflict_free (occ @ [c])" by (rule conflict_free_snoc)
next
  show "conflict_free []" by (simp add: conflict_free_def)
qed

lemma capacity_run:
  assumes "1 \<le> R" "scheduler cs days (Some R) u = Some (schedule, periods, unassigned, err)"
    and "(slot, occ) \<in> set schedule"
  shows "int (length occ) \<le> R"
proof (rule scheduler_entries [where Q = "\<lambda>slot occ. int (length occ) \<le> R", OF _ _ assms(2,3)])
  fix c :: course and occ :: "course list"
  assume "int (length occ) \<le> R" "\<not> (truthy (Some R) \<and> Some (int (length occ)) = Some R)"
  then show "int (length (occ @ [c])) \<le> R" using assms(1) by (simp add: truthy_def)
next
  show "int (length ([] :: course list)) \<le> R" using assms(1) by simp
qed

lemma available_run:
  assumes "scheduler cs days rooms u = Some (schedule, periods, unassigned, err)"
    and "(slot, occ) \<in> set schedule" "c \<in> set occ"
  shows "unavailable u c slot = Inr False"
proof -
  have "\<forall>c \<in> set occ. unavailable u c slot = Inr False"
    by (rule scheduler_entries [where Q = "\<lambda>slot occ. \<forall>c \<in> set occ. unavailable u c slot = Inr False",
          OF _ _ assms(1,2)]) auto
  then show ?thesis using assms(3) by simp
qed

section \<open>The sample run\<close>

text \<open>
  With one day the grid is the periods 1 to 1000 of day 1. Algebra, whose teacher is away
  in period 1, is sorted first and goes to period 2; Physics and Chemistry fill the two
  rooms of period 1; Biology finds period 1 full and joins Algebra.
\<close>

lemma canonical_slots_1:
  "canonical_slots 1 = ''1.1'' # ''1.2'' # ''1.3'' # map (slot_key 1) [4..1000]"
proof -
  have "[1..1000 :: int] = [1..3] @ [4..1000]" using upto_split1 [of 1 4 1000] by (simp del: upto_rec_numeral)
  moreover have "[1..3 :: int] = [1, 2, 3]" by (simp add: upto_rec1)
  moreover have "slot_key 1 1 = ''1.1''" "slot_key 1 2 = ''1.2''" "slot_key 1 3 = ''1.3''"
    by (simp_all add: slot_key_def show_int_def show_nat.simps digit_char_def)
  moreover have "canonical_slots 1 = map (slot_key 1) [1..1000]"
    unfolding canonical_slots_def
    by (simp only: div_by_1 upto_single map_concat concat_map_singleton list.map)
  ultimately show ?thesis by (simp only: map_append list.map append.simps)
qed

lemma init_schedule_1:
  "init_schedule 1 =
     Some ((''1.1'', []) # (''1.2'', []) # (''1.3'', []) # map (\<lambda>p. (slot_key 1 p, [])) [4..1000])"
  by (simp add: init_schedule_finite canonical_slots_1 comp_def del: upto_rec_numeral)

lemmas course_defs = algebra_def physics_def chemistry_def biology_def Course_def

lemma sample_order:
  "js_sort compare_courses (calculateConflicts [algebra, physics, chemistry, biology] (Some khan_away))
     = [algebra\<lparr>conflicts := Some 1\<rparr>, physics, chemistry, biology]"
  by (simp add: calculateConflicts_def count_conflicts_def unavail_count_def js_get_def inherited_def conflict_def
      khan_away_def js_sort_def compare_courses_def js_minus_def course_defs upt_rec)

lemma period_of_literals:
  "parseInt (js_index (js_split CHR ''.'' ''1.1'') 1) = Some 1"
  "parseInt (js_index (js_split CHR ''.'' ''1.2'') 1) = Some 2"
  "parseInt (js_index (js_split CHR ''.'' ''1.3'') 1) = Some 3"
  by (simp_all add: js_split_def js_index_def parseInt_def is_space_def parse_unsigned_def
      parse_digits_def is_digit_def digit_value_def digits_value_def)

lemma sample_run:
  "scheduler [algebra, physics, chemistry, biology] 1 (Some 2) (Some khan_away) =
     Some ((''1.1'', [physics, chemistry]) # (''1.2'', [algebra\<lparr>conflicts := Some 1\<rparr>, biology]) #
           (''1.3'', []) # map (\<lambda>p. (slot_key 1 p, [])) [4..1000],
           Some 2, [], None)"
proof -
  define rest where "rest = map (\<lambda>p. (slot_key 1 p, [] :: course list)) [4..1000]"
  have init: "init_schedule 1 = Some ((''1.1'', []) # (''1.2'', []) # (''1.3'', []) # rest)"
    unfolding rest_def by (rule init_schedule_1)
  have "assignCourses [algebra\<lparr>conflicts := Some 1\<rparr>, physics, chemistry, biology]
          ((''1.1'', []) # (''1.2'', []) # (''1.3'', []) # rest) (Some 2) (Some khan_away) =
        Inr ((''1.1'', [physics, chemistry]) # (''1.2'', [algebra\<lparr>conflicts := Some 1\<rparr>, biology]) #
             (''1.3'', []) # rest, Some 2, [])"
    by (simp add: assignCourses_def allot_def phase1_def phase2_def assign_def full_def js_get_def inherited_def truthy_def
        unavailable_def khan_away_def conflict_def js_max_def period_of_literals course_defs
        del: One_nat_def)
  then show ?thesis
    unfolding rest_def [symmetric]
    by (simp add: scheduler_def scheduler_try_def init sample_order)
qed

section \<open>Conflicts, room capacity and unavailability\<close>

text \<open>
  C2 (amended). \<^const>\<open>conflict\<close> holds exactly when the two courses have the same teacher
  or their section sets share an element, and it is symmetric. It is reflexive, not irreflexive:
  every course conflicts with itself, having its own teacher.
\<close>

theorem conflict_characterised_symmetric_reflexive:
  "(conflict c1 c2 \<longleftrightarrow> teacher c1 = teacher c2 \<or> section_c c1 \<inter> section_c c2 \<noteq> {}) \<and>
   conflict c1 c2 = conflict c2 c1 \<and>
   conflict c c"
  using conflict_iff [of c1 c2] conflict_sym [of c1 c2] conflict_refl [of c] by simp

theorem conflict_characterised_witness:
  "\<not> conflict algebra physics \<and> \<not> conflict physics algebra \<and>
   conflict algebra (biology\<lparr>section_c := {''A'', ''D''}\<rparr>) \<and> conflict algebra algebra"
  using conflict_characterised_symmetric_reflexive [of algebra physics algebra]
    conflict_characterised_symmetric_reflexive [of algebra "biology\<lparr>section_c := {''A'', ''D''}\<rparr>" algebra]
  by (simp add: course_defs conflict_def)

text \<open>
  C2 as stated fails: \<^const>\<open>conflict\<close> is not irreflexive. The Algebra course conflicts with
  itself.
\<close>

theorem conflict_irreflexive_counterexample:
  "conflict (Course 0 ''Algebra'' ''Khan'' [''A''] 1 2 []) (Course 0 ''Algebra'' ''Khan'' [''A''] 1 2 [])"
  by (simp add: conflict_def)

text \<open>
  C1. In the result of every run, no slot holds two courses in conflict: whatever two
  positions of a slot's occupancy list one takes, the courses there have different
  teachers and no section in common.
\<close>

theorem no_conflict_within_a_slot:
  assumes "scheduler courses days rooms unavail = Some (schedule, periods, unassigned, err)"
    and "(slot, occ) \<in> set schedule"
    and "i < length occ" "j < length occ" "i \<noteq> j"
  shows "\<not> conflict (occ ! i) (occ ! j) \<and>
         teacher (occ ! i) \<noteq> teacher (occ ! j) \<and>
         section_c (occ ! i) \<inter> section_c (occ ! j) = {}"
proof -
  have "conflict_free occ" using assms(1,2) by (rule conflict_free_run)
  then have "\<not> conflict (occ ! i) (occ ! j)"
    using assms(3-5) by (simp add: conflict_free_def)
  then show ?thesis by (simp add: conflict_iff)
qed

theorem no_conflict_within_a_slot_witness:
  "(''1.1'', [physics, chemistry])
     \<in> set (fst (the (scheduler [algebra, physics, chemistry, biology] 1 (Some 2) (Some khan_away)))) \<and>
   \<not> conflict physics chemistry \<and> teacher physics \<noteq> teacher chemistry \<and>
   section_c physics \<inter> section_c chemistry = {}"
  using no_conflict_within_a_slot [OF sample_run, of "''1.1''" "[physics, chemistry]" 0 1]
  by (simp add: sample_run)

text \<open>
  C3. With a room capacity \<open>R\<close> of at least 1 (the only capacities a run is configured
  with), the occupancy lists are within \<open>R\<close> in the initial schedule and every call of
  \<^const>\<open>assign\<close> keeps them so, hence the bound holds throughout the allocation and in
  the result; and a slot that already holds \<open>R\<close> courses is rejected by the first check,
  whatever the later checks would say.
\<close>

theorem room_capacity_respected:
  assumes "1 \<le> R"
  shows "((\<forall>(k, occ) \<in> set schedule. int (length occ) \<le> R) \<longrightarrow>
          assign (Some R) unavail course slot (schedule, periods) = Inr (ok, st') \<longrightarrow>
          (\<forall>(k, occ) \<in> set (fst st'). int (length occ) \<le> R)) \<and>
         (map_of schedule slot = Some occ \<longrightarrow> int (length occ) = R \<longrightarrow>
          assign (Some R) unavail course slot (schedule, periods) = Inr (False, (schedule, periods))) \<and>
         (scheduler courses days (Some R) unavail = Some (schedule', periods', unassigned, err) \<longrightarrow>
          (\<forall>(k, occ) \<in> set schedule'. int (length occ) \<le> R)) \<and>
         (init_schedule days = Some schedule0 \<longrightarrow>
          (\<forall>(k, occ) \<in> set schedule0. int (length occ) \<le> R))"
proof (intro conjI impI)
  show "\<forall>(k, occ) \<in> set schedule0. int (length occ) \<le> R"
    if "init_schedule days = Some schedule0"
    using init_entries_empty [OF that] assms by fastforce
next
  have "preserved (\<lambda>st. \<forall>(k, occ) \<in> set (fst st). int (length occ) \<le> R) (Some R) unavail"
    using assms by (intro preserved_entries) (simp add: truthy_def)
  then show "\<forall>(k, occ) \<in> set (fst st'). int (length occ) \<le> R"
    if "\<forall>(k, occ) \<in> set schedule. int (length occ) \<le> R"
      "assign (Some R) unavail course slot (schedule, periods) = Inr (ok, st')"
    using that unfolding preserved_def by (metis fst_conv)
next
  show "assign (Some R) unavail course slot (schedule, periods) = Inr (False, (schedule, periods))"
    if "map_of schedule slot = Some occ" "int (length occ) = R"
    using that assms by (simp add: assign_def full_def js_get_def inherited_def truthy_def)
next
  show "\<forall>(k, occ) \<in> set schedule'. int (length occ) \<le> R"
    if "scheduler courses days (Some R) unavail = Some (schedule', periods', unassigned, err)"
    using capacity_run [OF assms that] by auto
qed

theorem room_capacity_respected_witness:
  "(1 :: int) \<le> 2 \<and>
   assign (Some 2) (Some khan_away) biology ''1.1'' ([(''1.1'', [physics, chemistry])], Some 1) =
     Inr (False, ([(''1.1'', [physics, chemistry])], Some 1)) \<and>
   (''1.1'', [physics, chemistry])
     \<in> set (fst (the (scheduler [algebra, physics, chemistry, biology] 1 (Some 2) (Some khan_away)))) \<and>
   int (length [physics, chemistry]) \<le> 2"
  using room_capacity_respected [of 2 "[(''1.1'', [physics, chemistry])]" "Some khan_away" biology
      "''1.1''" "Some 1" False "([(''1.1'', [physics, chemistry])], Some 1)" "[physics, chemistry]"
      "[algebra, physics, chemistry, biology]" 1
      "fst (the (scheduler [algebra, physics, chemistry, biology] 1 (Some 2) (Some khan_away)))"
      "Some 2" "[]" None]
  by (simp add: sample_run del: upto_rec_numeral)

text \<open>
  C4. When the run is given an unavailability map that lists slot \<open>s\<close> for teacher \<open>t\<close>, no
  course in the occupancy list of \<open>s\<close> in the result has teacher \<open>t\<close>.
\<close>

theorem unavailable_teacher_never_placed:
  assumes "scheduler courses days rooms (Some u) = Some (schedule, periods, unassigned, err)"
    and "u t = Some slots" "slot \<in> set slots"
    and "(slot, occ) \<in> set schedule" "c \<in> set occ"
  shows "teacher c \<noteq> t"
  using available_run [OF assms(1,4,5)] assms(2,3) by (auto simp: unavailable_def js_get_Some)

theorem unavailable_teacher_never_placed_witness:
  "khan_away ''Khan'' = Some [''1.1''] \<and>
   (''1.1'', [physics, chemistry])
     \<in> set (fst (the (scheduler [algebra, physics, chemistry, biology] 1 (Some 2) (Some khan_away)))) \<and>
   teacher physics \<noteq> ''Khan'' \<and> teacher chemistry \<noteq> ''Khan''"
proof -
  have away: "khan_away ''Khan'' = Some [''1.1'']" by (simp add: khan_away_def)
  have placed: "(''1.1'', [physics, chemistry])
     \<in> set (fst (the (scheduler [algebra, physics, chemistry, biology] 1 (Some 2) (Some khan_away))))"
    by (simp add: sample_run)
  have "teacher c \<noteq> ''Khan''" if "c \<in> set [physics, chemistry]" for c
    using unavailable_teacher_never_placed [OF sample_run away, of "''1.1''" "[physics, chemistry]" c]
      that by (simp add: sample_run)
  then show ?thesis using away placed by simp
qed

section \<open>The period counter\<close>

text \<open>
  Every successful \<^const>\<open>assign\<close> is on a key of the grid, whose period
  \<^const>\<open>parseInt\<close> reads back, so the counter follows the highest occupied period.
\<close>

lemma maxPeriodUsed_eq: "maxPeriodUsed days schedule = Max (insert 0 (used_periods days schedule))"
proof -
  have "set (concat (map (\<lambda>period. concat (map (\<lambda>day.
            if occupied schedule (slot_key day period) then [period] else []) [1..days]))
          [1..1000 div days])) = used_periods days schedule"
    by (auto simp: used_periods_def split: if_splits)
  then show ?thesis by (simp add: maxPeriodUsed_def)
qed

lemma finite_used_periods: "finite (used_periods days schedule)"
proof (rule finite_subset)
  show "used_periods days schedule \<subseteq> {1..1000 div days}" by (auto simp: used_periods_def)
qed simp

lemma occupied_update:
  "occupied (AList.update slot occ schedule) k = (if k = slot then occ \<noteq> [] else occupied schedule k)"
  by (simp add: occupied_def update_conv')

lemma used_periods_update:
  assumes "1 \<le> d" "d \<le> days" "1 \<le> p" "p \<le> 1000 div days"
  shows "used_periods days (AList.update (slot_key d p) (occ @ [c]) schedule) =
         insert p (used_periods days schedule)"
proof (intro set_eqI iffI)
  fix q assume "q \<in> used_periods days (AList.update (slot_key d p) (occ @ [c]) schedule)"
  then obtain e where q: "1 \<le> q" "q \<le> 1000 div days" "1 \<le> e" "e \<le> days"
    and dis: "slot_key e q = slot_key d p \<or> occupied schedule (slot_key e q)"
    by (auto simp: used_periods_def occupied_update split: if_splits)
  from dis show "q \<in> insert p (used_periods days schedule)"
  proof
    assume "slot_key e q = slot_key d p"
    then have "q = p" using slot_key_inject [of e q d p] q assms by simp
    then show ?thesis by simp
  next
    assume "occupied schedule (slot_key e q)"
    then show ?thesis using q by (auto simp: used_periods_def)
  qed
next
  fix q assume "q \<in> insert p (used_periods days schedule)"
  then show "q \<in> used_periods days (AList.update (slot_key d p) (occ @ [c]) schedule)"
  proof
    assume "q = p"
    then show ?thesis
      using assms unfolding used_periods_def
      by (auto simp: occupied_update intro!: exI [of _ d])
  next
    assume "q \<in> used_periods days schedule"
    then show ?thesis unfolding used_periods_def by (auto simp: occupied_update)
  qed
qed

lemma maxPeriodUsed_update:
  assumes "1 \<le> d" "d \<le> days" "1 \<le> p" "p \<le> 1000 div days"
  shows "maxPeriodUsed days (AList.update (slot_key d p) (occ @ [c]) schedule) =
         max (maxPeriodUsed days schedule) p"
  using finite_used_periods [of days schedule]
  by (simp add: maxPeriodUsed_eq used_periods_update [OF assms] insert_commute [of 0 p] max.commute)

lemma maxPeriodUsed_unoccupied: "\<forall>slot. \<not> occupied schedule slot \<Longrightarrow> maxPeriodUsed days schedule = 0"
  by (simp add: maxPeriodUsed_eq used_periods_def)

lemma preserved_periods_inv: "preserved (periods_inv days) rooms u"
  unfolding preserved_def
proof (intro allI impI)
  fix c slot st ok st'
  assume inv: "periods_inv days st" and a: "assign rooms u c slot st = Inr (ok, st')"
  obtain schedule periods where st: "st = (schedule, periods)" by (cases st)
  from assign_Inr [OF a [unfolded st]]
  show "periods_inv days st'"
  proof
    assume "\<not> ok \<and> st' = (schedule, periods)"
    then show ?thesis using inv st by simp
  next
    assume "ok \<and> (\<exists>occ. map_of schedule slot = Some occ \<and>
                  \<not> (truthy rooms \<and> Some (int (length occ)) = rooms) \<and>
                  unavailable u c slot = Inr False \<and>
                  (\<forall>scheduled \<in> set occ. \<not> conflict c scheduled) \<and>
                  st' = (AList.update slot (occ @ [c]) schedule,
                         js_max periods (parseInt (js_index (js_split CHR ''.'' slot) 1))))"
    then obtain occ where occ: "map_of schedule slot = Some occ"
      and st': "st' = (AList.update slot (occ @ [c]) schedule,
                       js_max periods (parseInt (js_index (js_split CHR ''.'' slot) 1)))"
      by auto
    have "slot \<in> fst ` set schedule" using occ by (force dest: map_of_SomeD)
    then have "slot \<in> set (canonical_slots days)" using inv st by (auto simp: periods_inv_def)
    then obtain d p where dp: "slot = slot_key d p" "1 \<le> d" "d \<le> days" "1 \<le> p" "p \<le> 1000 div days"
      by (auto simp: canonical_slots_form)
    have keys: "fst ` set (AList.update slot (occ @ [c]) schedule) \<subseteq> set (canonical_slots days)"
      using inv st map_fst_update [OF occ, of "occ @ [c]"]
      by (metis fst_conv list.set_map periods_inv_def)
    have "periods = Some (maxPeriodUsed days schedule)" using inv st by (simp add: periods_inv_def)
    then have "js_max periods (parseInt (js_index (js_split CHR ''.'' slot) 1)) =
          Some (maxPeriodUsed days (AList.update slot (occ @ [c]) schedule))"
      using dp by (simp add: period_of_slot_key js_max_def maxPeriodUsed_update del: One_nat_def)
    then show ?thesis using keys by (simp add: periods_inv_def st')
  qed
qed

lemma periods_run:
  assumes "scheduler cs days rooms u = Some (schedule, periods, unassigned, err)"
  shows "periods = Some (maxPeriodUsed days schedule)"
    and "fst ` set schedule \<subseteq> set (canonical_slots days)"
proof -
  have "periods_inv days (schedule, periods)"
  proof (rule scheduler_invariant [OF preserved_periods_inv _ _ assms])
    show "periods_inv days ([], Some 0)"
      by (simp add: periods_inv_def maxPeriodUsed_unoccupied occupied_def)
    show "periods_inv days (s0, Some 0)" if "init_schedule days = Some s0" for s0
    proof -
      have "days \<noteq> 0" using that init_periods_zero by (auto simp: init_schedule_def)
      then have s0: "s0 = map (\<lambda>k. (k, [])) (canonical_slots days)"
        using that by (simp add: init_schedule_finite)
      have "\<not> occupied s0 slot" for slot
        by (auto simp: occupied_def s0 map_of_map_restrict restrict_map_def split: option.splits)
      then show ?thesis
        by (simp add: periods_inv_def maxPeriodUsed_unoccupied) (auto simp: s0)
    qed
  qed
  then show "periods = Some (maxPeriodUsed days schedule)"
    and "fst ` set schedule \<subseteq> set (canonical_slots days)"
    by (simp_all add: periods_inv_def)
qed

text \<open>
  C7. The \<^verbatim>\<open>periods\<close> value of a run's result is the maximum period index over the
  occupied slots of the grid, which are all the occupied slots there are, and 0 when no
  slot is occupied.
\<close>

theorem periods_is_max_period_used:
  assumes "scheduler courses days rooms unavail = Some (schedule, periods, unassigned, err)"
  shows "periods = Some (maxPeriodUsed days schedule) \<and>
         maxPeriodUsed days schedule =
           Max (insert 0 {p. 1 \<le> p \<and> p \<le> 1000 div days \<and>
                            (\<exists>d. 1 \<le> d \<and> d \<le> days \<and> occupied schedule (slot_key d p))}) \<and>
         fst ` set schedule \<subseteq> set (canonical_slots days) \<and>
         ((\<forall>slot. \<not> occupied schedule slot) \<longrightarrow> periods = Some 0)"
  using periods_run [OF assms] maxPeriodUsed_eq [of days schedule]
    maxPeriodUsed_unoccupied [of schedule days]
  by (simp add: used_periods_def)

theorem periods_is_max_period_used_witness:
  "fst (snd (the (scheduler [algebra, physics, chemistry, biology] 1 (Some 2) (Some khan_away)))) = Some 2 \<and>
   maxPeriodUsed 1 (fst (the (scheduler [algebra, physics, chemistry, biology] 1 (Some 2) (Some khan_away)))) = 2"
  using periods_is_max_period_used [OF sample_run]
  by (simp add: sample_run del: upto_rec_numeral)

section \<open>The order of the courses\<close>

text \<open>
  On courses whose scores are numbers the comparator decides the order of the
  specification, which is total, and the sort yields the one sorted arrangement. A score
  that is \<^verbatim>\<open>NaN\<close> makes the comparator fall through to the ids against every other
  course of the tier.
\<close>

lemma compare_courses_le:
  "conflicts a \<noteq> None \<Longrightarrow> conflicts b \<noteq> None \<Longrightarrow> compare_courses a b \<le> 0 \<longleftrightarrow> precedes a b"
  by (auto simp: compare_courses_def js_minus_def precedes_def split: if_splits)

lemma precedes_total:
  "conflicts a \<noteq> None \<Longrightarrow> conflicts b \<noteq> None \<Longrightarrow> precedes a b \<or> precedes b a"
  by (auto simp: precedes_def)

lemma precedes_trans: "precedes a b \<Longrightarrow> precedes b c \<Longrightarrow> precedes a c"
  by (auto simp: precedes_def split: option.splits)

lemma precedes_antisym: "precedes a b \<Longrightarrow> precedes b a \<Longrightarrow> id_c a = id_c b"
  by (auto simp: precedes_def split: option.splits)

lemma set_insert_sorted: "set (insert_sorted cmp x ys) = insert x (set ys)"
  by (induction ys) auto

lemma mset_insert_sorted: "mset (insert_sorted cmp x ys) = add_mset x (mset ys)"
  by (induction ys) auto

lemma mset_js_sort: "mset (js_sort cmp xs) = mset xs"
  by (induction xs) (simp_all add: js_sort_def mset_insert_sorted)

lemma sorted_insert_sorted:
  "\<forall>c \<in> set (x # ys). conflicts c \<noteq> None \<Longrightarrow> sorted_wrt precedes ys \<Longrightarrow>
   sorted_wrt precedes (insert_sorted compare_courses x ys)"
proof (induction ys)
  case Nil
  then show ?case by simp
next
  case (Cons y ys)
  have num: "conflicts x \<noteq> None" "conflicts y \<noteq> None" using Cons.prems(1) by simp_all
  show ?case
  proof (cases "compare_courses x y \<le> 0")
    case True
    then have "precedes x y" using num by (simp add: compare_courses_le)
    then have "\<forall>z \<in> set (y # ys). precedes x z"
      using Cons.prems(2) precedes_trans by auto
    then show ?thesis using True Cons.prems(2) by simp
  next
    case False
    then have "precedes y x" using precedes_total [OF num] num by (simp add: compare_courses_le)
    moreover have "sorted_wrt precedes (insert_sorted compare_courses x ys)"
      using Cons.IH Cons.prems by simp
    ultimately show ?thesis using False Cons.prems(2) by (auto simp: set_insert_sorted)
  qed
qed

lemma sorted_js_sort:
  "\<forall>c \<in> set xs. conflicts c \<noteq> None \<Longrightarrow> sorted_wrt precedes (js_sort compare_courses xs)"
proof (induction xs)
  case Nil
  then show ?case by (simp add: js_sort_def)
next
  case (Cons x xs)
  have "set (js_sort compare_courses xs) = set xs" using mset_js_sort by (metis mset_eq_setD)
  then have "\<forall>c \<in> set (x # js_sort compare_courses xs). conflicts c \<noteq> None"
    using Cons.prems by simp
  moreover have "sorted_wrt precedes (js_sort compare_courses xs)" using Cons by simp
  ultimately have "sorted_wrt precedes (insert_sorted compare_courses x (js_sort compare_courses xs))"
    by (rule sorted_insert_sorted)
  then show ?case by (simp add: js_sort_def)
qed

lemma sorted_wrt_unique:
  assumes "\<And>a b. a \<in> set xs \<Longrightarrow> b \<in> set xs \<Longrightarrow> R a b \<Longrightarrow> R b a \<Longrightarrow> a = b"
  shows "sorted_wrt R xs \<Longrightarrow> sorted_wrt R ys \<Longrightarrow> mset xs = mset ys \<Longrightarrow> xs = ys"
  using assms
proof (induction xs arbitrary: ys)
  case Nil
  then show ?case by simp
next
  case (Cons x xs)
  then obtain y ys' where ys: "ys = y # ys'" by (cases ys) auto
  have sets: "set (x # xs) = set (y # ys')" using Cons.prems(3) ys by (metis mset_eq_setD)
  have "x = y"
  proof (rule ccontr)
    assume neq: "x \<noteq> y"
    then have "x \<in> set ys'" "y \<in> set xs" using sets by auto
    then have "R y x" "R x y" using Cons.prems(1,2) ys by auto
    moreover have "y \<in> set (x # xs)" using sets by auto
    ultimately show False using Cons.prems(4) [of x y] neq by simp
  qed
  moreover have "xs = ys'"
  proof (rule Cons.IH)
    show "sorted_wrt R xs" using Cons.prems(1) by simp
    show "sorted_wrt R ys'" using Cons.prems(2) ys by simp
    show "mset xs = mset ys'" using Cons.prems(3) ys \<open>x = y\<close> by simp
    show "\<And>a b. a \<in> set xs \<Longrightarrow> b \<in> set xs \<Longrightarrow> R a b \<Longrightarrow> R b a \<Longrightarrow> a = b"
      using Cons.prems(4) by simp
  qed
  ultimately show ?case using ys by simp
qed

lemma map_id_c_rescore:
  "map id_c (foldl (\<lambda>cs i. cs[i := (cs ! i)\<lparr>conflicts := h cs i\<rparr>]) courses is) = map id_c courses"
proof (induction "is" arbitrary: courses)
  case Nil
  then show ?case by simp
next
  case (Cons i "is")
  have "map id_c (courses[i := (courses ! i)\<lparr>conflicts := h courses i\<rparr>]) = map id_c courses"
    by (cases "i < length courses") (simp_all add: map_update list_update_same_conv list_update_beyond)
  then show ?case using Cons.IH by simp
qed

lemma map_id_c_calculateConflicts: "map id_c (calculateConflicts courses unavail) = map id_c courses"
  by (simp add: calculateConflicts_def map_id_c_rescore split: option.splits)

lemma precedes_antisym_on:
  assumes "distinct (map id_c xs)" "a \<in> set xs" "b \<in> set xs" "precedes a b" "precedes b a"
  shows "a = b"
  using assms precedes_antisym [of a b] by (meson distinct_map inj_onD)

lemma numeric_scores_sorted_uniquely:
  assumes "distinct (map id_c courses)"
    and "\<forall>c \<in> set (calculateConflicts courses unavail). conflicts c \<noteq> None"
    and "sorted_courses = js_sort compare_courses (calculateConflicts courses unavail)"
  shows "sorted_wrt precedes sorted_courses"
    and "mset sorted_courses = mset (calculateConflicts courses unavail)"
    and "\<And>ys. mset ys = mset (calculateConflicts courses unavail) \<Longrightarrow> sorted_wrt precedes ys \<Longrightarrow>
           ys = sorted_courses"
proof -
  let ?scored = "calculateConflicts courses unavail"
  show sorted: "sorted_wrt precedes sorted_courses"
    unfolding assms(3) using assms(2) by (rule sorted_js_sort)
  show perm: "mset sorted_courses = mset ?scored"
    unfolding assms(3) by (rule mset_js_sort)
  have "mset (map id_c sorted_courses) = mset (map id_c courses)"
    using perm map_id_c_calculateConflicts [of courses unavail] by (metis mset_map)
  then have ids: "distinct (map id_c sorted_courses)"
    using assms(1) by (metis mset_eq_imp_distinct_iff)
  show "ys = sorted_courses" if "mset ys = mset ?scored" "sorted_wrt precedes ys" for ys
  proof (rule sym, rule sorted_wrt_unique [where R = precedes])
    show "sorted_wrt precedes sorted_courses" by (rule sorted)
    show "sorted_wrt precedes ys" by (rule that)
    show "mset sorted_courses = mset ys" using perm that by simp
    show "\<And>a b. a \<in> set sorted_courses \<Longrightarrow> b \<in> set sorted_courses \<Longrightarrow>
            precedes a b \<Longrightarrow> precedes b a \<Longrightarrow> a = b"
      using ids by (rule precedes_antisym_on)
  qed
qed

text \<open>
  With an unavailability object that has no entry of its own for the teacher name
  \<^verbatim>\<open>__proto__\<close>, the lookup of that name gives the prototype object, whose \<^verbatim>\<open>length\<close> is
  \<^verbatim>\<open>undefined\<close>, and the score of the course becomes \<^verbatim>\<open>NaN\<close>.
\<close>

lemma proto_rows_scored:
  "calculateConflicts [row_physics, row_logic, row_algebra, row_art] (Some khan_busy) =
     [row_physics, row_logic\<lparr>conflicts := None\<rparr>, row_algebra\<lparr>conflicts := Some 3\<rparr>, row_art]"
  by (simp add: calculateConflicts_def count_conflicts_def unavail_count_def js_get_def
      inherited_def conflict_def khan_busy_def row_physics_def row_logic_def row_algebra_def
      row_art_def Course_def upt_rec)

lemma proto_rows_sorted:
  "js_sort compare_courses
     [row_physics, row_logic\<lparr>conflicts := None\<rparr>, row_algebra\<lparr>conflicts := Some 3\<rparr>, row_art] =
     [row_art, row_physics, row_logic\<lparr>conflicts := None\<rparr>, row_algebra\<lparr>conflicts := Some 3\<rparr>]"
  by (simp add: js_sort_def compare_courses_def js_minus_def row_physics_def row_logic_def
      row_algebra_def row_art_def Course_def)

lemma proto_rows_run:
  "scheduler [row_physics, row_logic, row_algebra, row_art] (- 1) None (Some khan_busy) =
     Some ([], Some 0,
           [row_art, row_physics, row_logic\<lparr>conflicts := None\<rparr>, row_algebra\<lparr>conflicts := Some 3\<rparr>],
           Some ''Unable to schedule all classes.'')"
proof -
  have init: "init_schedule (- 1) = Some []"
    by (simp add: init_schedule_finite canonical_slots_def)
  have "assignCourses
          [row_art, row_physics, row_logic\<lparr>conflicts := None\<rparr>, row_algebra\<lparr>conflicts := Some 3\<rparr>]
          [] None (Some khan_busy) =
        Inr ([], Some 0,
             [row_art, row_physics, row_logic\<lparr>conflicts := None\<rparr>, row_algebra\<lparr>conflicts := Some 3\<rparr>])"
    by (simp add: assignCourses_def allot_def phase1_def phase2_def row_physics_def row_logic_def
        row_algebra_def row_art_def Course_def)
  then show ?thesis
    by (simp add: scheduler_def scheduler_try_def init proto_rows_scored proto_rows_sorted)
qed

text \<open>
  C5. The claim fails on the code where a score is \<^verbatim>\<open>NaN\<close>. Of four rows, the second
  with the teacher name \<^verbatim>\<open>__proto__\<close>, the third with three unavailable slots and the fourth
  in tier 1, the sort puts Physics with score 0 ahead of Algebra with score 3 in the same
  tier; the comparator runs in a circle through the three courses of tier 2, so it is no
  total order; and the run allocates in that order, as the unassigned list of a run on an
  empty grid shows.
\<close>

theorem nan_score_breaks_order:
  "js_sort compare_courses
     (calculateConflicts [row_physics, row_logic, row_algebra, row_art] (Some khan_busy)) =
     [row_art, row_physics, row_logic\<lparr>conflicts := None\<rparr>, row_algebra\<lparr>conflicts := Some 3\<rparr>] \<and>
   compare_courses (row_algebra\<lparr>conflicts := Some 3\<rparr>) row_physics < 0 \<and>
   compare_courses row_physics (row_logic\<lparr>conflicts := None\<rparr>) < 0 \<and>
   compare_courses (row_logic\<lparr>conflicts := None\<rparr>) (row_algebra\<lparr>conflicts := Some 3\<rparr>) < 0 \<and>
   scheduler [row_physics, row_logic, row_algebra, row_art] (- 1) None (Some khan_busy) =
     Some ([], Some 0,
           [row_art, row_physics, row_logic\<lparr>conflicts := None\<rparr>, row_algebra\<lparr>conflicts := Some 3\<rparr>],
           Some ''Unable to schedule all classes.'')"
proof -
  have "compare_courses (row_algebra\<lparr>conflicts := Some 3\<rparr>) row_physics < 0"
    "compare_courses row_physics (row_logic\<lparr>conflicts := None\<rparr>) < 0"
    "compare_courses (row_logic\<lparr>conflicts := None\<rparr>) (row_algebra\<lparr>conflicts := Some 3\<rparr>) < 0"
    by (simp_all add: compare_courses_def js_minus_def row_physics_def row_logic_def
        row_algebra_def Course_def)
  then show ?thesis
    using proto_rows_run by (simp add: proto_rows_scored proto_rows_sorted)
qed

section \<open>The fallback phase\<close>












section \<open>Invalid day counts\<close>

lemma init_schedule_negative: "days < 0 \<Longrightarrow> init_schedule days = Some []"
proof -
  assume d: "days < 0"
  then have "1000 div days < 0" by (simp add: neg_imp_zdiv_neg_iff)
  then have "canonical_slots days = []" by (simp add: canonical_slots_def)
  then show ?thesis using d by (simp add: init_schedule_finite)
qed

lemma engine_without_check: "scheduler [] (- 1) None None = Some ([], Some 0, [], None)"
  by (simp add: scheduler_def scheduler_try_def init_schedule_negative assignCourses_def
      calculateConflicts_def js_sort_def)

text \<open>
  C8 (amended). Every input with \<open>days < 1\<close> is rejected by the submit handler, with the
  message for an invalid value, before the engine is called: no grid is built and no
  allocation is done. The grid initialisation of the engine makes no check of its own and
  raises no error: below zero it returns the empty grid.
\<close>

theorem days_below_one_rejected_by_handler:
  "(days < 1 \<longrightarrow> submit days rooms courses unavail = DisplayError ''Invalid value for days or rooms'') \<and>
   (days < 0 \<longrightarrow> init_schedule days = Some [])"
  by (simp add: submit_def init_schedule_negative)

theorem days_below_one_rejected_witness:
  "(0 :: int) < 1 \<and> (- 1 :: int) < 0 \<and>
   submit 0 (Some 2) [algebra, physics] None = DisplayError ''Invalid value for days or rooms'' \<and>
   init_schedule (- 1) = Some []"
  using days_below_one_rejected_by_handler [of 0 "Some 2" "[algebra, physics]" None]
    days_below_one_rejected_by_handler [of "- 1" "Some 2" "[algebra, physics]" None]
  by simp

text \<open>
  C8 as stated fails: called with \<open>days = -1\<close>, the engine initialises its grid without any
  error and returns a result whose error is \<^verbatim>\<open>null\<close>.
\<close>

theorem grid_initialisation_counterexample:
  "scheduler [] (- 1) None None = Some ([], Some 0, [], None)"
  by (rule engine_without_check)

section \<open>Exceptions\<close>

text \<open>
  What throws is \<^const>\<open>assign\<close>, on a slot whose entry is no array or for a teacher
  whose entry in the unavailability object has no \<^verbatim>\<open>includes\<close>; the loops pass the
  exception on, and the \<^verbatim>\<open>catch\<close> clause of \<^const>\<open>scheduler\<close> turns it into a result. A
  day and period token has a dot in it, so it is no name of \<^verbatim>\<open>Object.prototype\<close>: outside
  the grid its entry is \<^verbatim>\<open>undefined\<close>.
\<close>

lemma slot_21_no_key: "''2.1'' \<notin> set (canonical_slots 1)"
proof
  assume "''2.1'' \<in> set (canonical_slots 1)"
  then obtain d p where dp: "''2.1'' = slot_key d p" "1 \<le> d" "d \<le> 1" "1 \<le> p"
    by (auto simp: canonical_slots_form)
  moreover have "slot_key 2 1 = ''2.1''"
    by (simp add: slot_key_def show_int_def show_nat.simps digit_char_def)
  ultimately have "slot_key 2 1 = slot_key d p" by simp
  then show False using slot_key_inject [of 2 1 d p] dp by simp
qed

lemma map_of_no_key: "k \<notin> set (map fst al) \<Longrightarrow> map_of al k = None"
  by (simp add: map_of_eq_None_iff)










lemma rest_no_21: "map_of (map (\<lambda>p. (slot_key 1 p, occ)) [4..1000]) ''2.1'' = None"
proof (rule map_of_no_key)
  have "set (map (slot_key 1) [4..1000]) \<subseteq> set (canonical_slots 1)"
    unfolding canonical_slots_1 by (simp only: list.set) blast
  then show "''2.1'' \<notin> set (map fst (map (\<lambda>p. (slot_key 1 p, occ)) [4..1000]))"
    using slot_21_no_key by (auto simp: comp_def simp del: upto_rec_numeral)
qed

lemma early_order:
  "js_sort compare_courses (calculateConflicts [algebra_early, physics_twice] None) =
     [] @ algebra_early # [physics_twice]"
  by (simp add: calculateConflicts_def count_conflicts_def conflict_def js_sort_def
      compare_courses_def js_minus_def algebra_early_def physics_twice_def Course_def upt_rec)



text \<open>
  C9. An exception raised in the \<^verbatim>\<open>try\<close> block ends the run with the result of the
  \<^verbatim>\<open>catch\<close> clause: an empty schedule, 0 periods, an empty unassigned list and an error
  string made from the exception's message. Nothing is thrown on: whenever the day count
  is not 0 the call returns a result array.
\<close>

theorem exceptions_become_error_results:
  "(scheduler_try courses days rooms unavail = Some (Inl e) \<longrightarrow>
      scheduler courses days rooms unavail =
        Some ([], Some 0, [],
              Some (''An unexpected error occurred during scheduling: '' @ message e))) \<and>
   (days \<noteq> 0 \<longrightarrow>
      (\<exists>schedule periods unassigned err.
         scheduler courses days rooms unavail = Some (schedule, periods, unassigned, err)))"
proof (intro conjI impI)
  show "scheduler courses days rooms unavail =
        Some ([], Some 0, [],
              Some (''An unexpected error occurred during scheduling: '' @ message e))"
    if "scheduler_try courses days rooms unavail = Some (Inl e)"
    using that by (simp add: scheduler_def)
  show "\<exists>schedule periods unassigned err.
         scheduler courses days rooms unavail = Some (schedule, periods, unassigned, err)"
    if "days \<noteq> 0"
    using scheduler_returns [OF that, of courses rooms unavail] by (metis prod_cases4)
qed

lemma failing_try:
  "scheduler_try [algebra_early, physics_twice] 1 None None =
     Some (Inl (TypeError ''schedule[slot] is not iterable''))"
proof -
  define rest where "rest = map (\<lambda>p. (slot_key 1 p, [] :: course list)) [4..1000]"
  have rest: "map_of rest ''2.1'' = None" unfolding rest_def by (rule rest_no_21)
  have init: "init_schedule 1 = Some ((''1.1'', []) # (''1.2'', []) # (''1.3'', []) # rest)"
    unfolding rest_def by (rule init_schedule_1)
  have "assignCourses [algebra_early, physics_twice]
          ((''1.1'', []) # (''1.2'', []) # (''1.3'', []) # rest) None None =
        Inl (TypeError ''schedule[slot] is not iterable'')"
    by (simp add: assignCourses_def allot_def phase1_def phase2_def assign_def full_def js_get_def inherited_def truthy_def
        unavailable_def conflict_def js_max_def period_of_literals rest
        algebra_early_def physics_twice_def Course_def del: One_nat_def)
  then show ?thesis
    using early_order by (simp add: scheduler_try_def init)
qed

theorem exceptions_become_error_results_witness:
  "scheduler_try [algebra_early, physics_twice] 1 None None =
     Some (Inl (TypeError ''schedule[slot] is not iterable'')) \<and>
   (1 :: int) \<noteq> 0 \<and>
   scheduler [algebra_early, physics_twice] 1 None None =
     Some ([], Some 0, [],
           Some ''An unexpected error occurred during scheduling: schedule[slot] is not iterable'')"
  using exceptions_become_error_results
      [of "[algebra_early, physics_twice]" 1 None None "TypeError ''schedule[slot] is not iterable''"]
    failing_try
  by simp

end
